theory Spec2Isabelle
  imports Main
begin

section \<open>Python values\<close>

text \<open>
  The service is dynamically typed: its checks use \<^verbatim>\<open>isinstance\<close>, truthiness and
  \<^verbatim>\<open>==\<close> on whatever the caller passes. A Python \<^verbatim>\<open>str\<close> is a sequence of
  Unicode code points and \<^verbatim>\<open>len\<close> counts code points, so a string is a list of
  code points here.
\<close>

type_synonym codepoint = nat
type_synonym pystr = "codepoint list"

datatype pyval = PyNone | PyBool bool | PyInt int | PyStr pystr

text \<open>Literals of the source are written as Isabelle strings and converted.\<close>

definition str :: "string \<Rightarrow> pystr" where
  "str cs = map of_char cs"

text \<open>\<^verbatim>\<open>isinstance(v, bool)\<close>, \<^verbatim>\<open>isinstance(v, str)\<close>; \<^verbatim>\<open>bool\<close> is a subclass of
  \<^verbatim>\<open>int\<close>, so \<^verbatim>\<open>isinstance(True, int)\<close> holds.\<close>

fun isinstance_bool :: "pyval \<Rightarrow> bool" where
  "isinstance_bool (PyBool b) = True"
| "isinstance_bool v = False"

fun isinstance_str :: "pyval \<Rightarrow> bool" where
  "isinstance_str (PyStr s) = True"
| "isinstance_str v = False"

fun isinstance_int :: "pyval \<Rightarrow> bool" where
  "isinstance_int (PyInt i) = True"
| "isinstance_int (PyBool b) = True"
| "isinstance_int v = False"

text \<open>The integer a value of class \<^verbatim>\<open>int\<close> stands for (\<^verbatim>\<open>True\<close> is 1).\<close>

fun int_value :: "pyval \<Rightarrow> int option" where
  "int_value (PyInt i) = Some i"
| "int_value (PyBool b) = Some (if b then 1 else 0)"
| "int_value v = None"

text \<open>Truthiness, as \<^verbatim>\<open>not v\<close> reads it.\<close>

fun truthy :: "pyval \<Rightarrow> bool" where
  "truthy PyNone = False"
| "truthy (PyBool b) = b"
| "truthy (PyInt i) = (i \<noteq> 0)"
| "truthy (PyStr s) = (s \<noteq> [])"

text \<open>\<^verbatim>\<open>a == b\<close>: numbers compare by value across \<^verbatim>\<open>int\<close> and \<^verbatim>\<open>bool\<close>.\<close>

fun py_eq :: "pyval \<Rightarrow> pyval \<Rightarrow> bool" where
  "py_eq PyNone PyNone = True"
| "py_eq (PyStr s) (PyStr t) = (s = t)"
| "py_eq a b = (case (int_value a, int_value b) of
                  (Some i, Some j) \<Rightarrow> i = j
                | _ \<Rightarrow> False)"

text \<open>The code points \<^verbatim>\<open>str.strip()\<close> removes: those Python treats as whitespace.\<close>

definition is_space :: "codepoint \<Rightarrow> bool" where
  "is_space c \<longleftrightarrow>
     (9 \<le> c \<and> c \<le> 13) \<or> (28 \<le> c \<and> c \<le> 32) \<or> c = 133 \<or> c = 160 \<or>
     c = 5760 \<or> (8192 \<le> c \<and> c \<le> 8202) \<or> c = 8232 \<or> c = 8233 \<or>
     c = 8239 \<or> c = 8287 \<or> c = 12288"

definition strip :: "pystr \<Rightarrow> pystr" where
  "strip s = rev (dropWhile is_space (rev (dropWhile is_space s)))"

section \<open>Errors\<close>

text \<open>
  Exceptions are values. \<^verbatim>\<open>ValueError\<close> is what the Task model raises (the
  validation error), \<^verbatim>\<open>InvalidTaskInputError\<close> what the service raises; both carry
  their message. The other three are the interpreter's own.
\<close>

datatype error =
    ValueError string
  | InvalidTaskInputError string
  | TaskNotFoundError pyval
  | AttributeError string
  | TypeError string
  | KeyError string

text \<open>\<^verbatim>\<open>v.strip()\<close> and \<^verbatim>\<open>len(v)\<close> on an arbitrary value.\<close>

fun py_strip :: "pyval \<Rightarrow> error + pystr" where
  "py_strip (PyStr s) = Inr (strip s)"
| "py_strip v = Inl (AttributeError ''strip'')"

fun py_len :: "pyval \<Rightarrow> error + nat" where
  "py_len (PyStr s) = Inr (length s)"
| "py_len v = Inl (TypeError ''len'')"

section \<open>The Task model\<close>

record task =
  task_id :: pyval
  title :: pyval
  description :: pyval
  completed :: pyval

definition validate_task_id :: "pyval \<Rightarrow> error + unit" where
  "validate_task_id tid =
     (if \<not> isinstance_int tid \<or> (case int_value tid of Some i \<Rightarrow> i \<le> 0 | None \<Rightarrow> True)
      then Inl (ValueError ''Task ID must be a positive integer'')
      else Inr ())"

definition validate_title :: "pyval \<Rightarrow> error + unit" where
  "validate_title t =
     (if \<not> truthy t \<or> \<not> isinstance_str t
      then Inl (ValueError ''Title must be a non-empty string'')
      else case py_strip t of
        Inl e \<Rightarrow> Inl e
      | Inr st \<Rightarrow>
          if st = [] then Inl (ValueError ''Title cannot be whitespace-only'')
          else case py_len t of
            Inl e \<Rightarrow> Inl e
          | Inr n \<Rightarrow>
              if n > 200 then Inl (ValueError ''Title must not exceed 200 characters'')
              else Inr ())"

definition validate_description :: "pyval \<Rightarrow> error + unit" where
  "validate_description d =
     (if \<not> isinstance_str d
      then Inl (ValueError ''Description must be a string'')
      else case py_len d of
        Inl e \<Rightarrow> Inl e
      | Inr n \<Rightarrow>
          if n > 1000 then Inl (ValueError ''Description must not exceed 1000 characters'')
          else Inr ())"

definition validate_completed :: "pyval \<Rightarrow> error + unit" where
  "validate_completed c =
     (if \<not> isinstance_bool c
      then Inl (ValueError ''Completed status must be a boolean'')
      else Inr ())"

text \<open>\<^verbatim>\<open>Task.__init__\<close>: the four checks in order, then the fields are stored as given.\<close>

definition Task_init :: "pyval \<Rightarrow> pyval \<Rightarrow> pyval \<Rightarrow> pyval \<Rightarrow> error + task" where
  "Task_init tid t d c =
     (case validate_task_id tid of Inl e \<Rightarrow> Inl e | Inr _ \<Rightarrow>
      case validate_title t of Inl e \<Rightarrow> Inl e | Inr _ \<Rightarrow>
      case validate_description d of Inl e \<Rightarrow> Inl e | Inr _ \<Rightarrow>
      case validate_completed c of Inl e \<Rightarrow> Inl e | Inr _ \<Rightarrow>
        Inr \<lparr>task_id = tid, title = t, description = d, completed = c\<rparr>)"

text \<open>The property setters: validate, then assign. There is no setter for the id.\<close>

definition set_title :: "task \<Rightarrow> pyval \<Rightarrow> error + task" where
  "set_title tk v =
     (case validate_title v of Inl e \<Rightarrow> Inl e | Inr _ \<Rightarrow> Inr (tk\<lparr>title := v\<rparr>))"

definition set_description :: "task \<Rightarrow> pyval \<Rightarrow> error + task" where
  "set_description tk v =
     (case validate_description v of Inl e \<Rightarrow> Inl e | Inr _ \<Rightarrow> Inr (tk\<lparr>description := v\<rparr>))"

definition set_completed :: "task \<Rightarrow> pyval \<Rightarrow> error + task" where
  "set_completed tk v =
     (case validate_completed v of Inl e \<Rightarrow> Inl e | Inr _ \<Rightarrow> Inr (tk\<lparr>completed := v\<rparr>))"

text \<open>\<^verbatim>\<open>to_dict\<close> and \<^verbatim>\<open>from_dict\<close>. Indexing a missing key raises \<^verbatim>\<open>KeyError\<close>;
  \<^verbatim>\<open>get\<close> with a default does not.\<close>

type_synonym pydict = "string \<rightharpoonup> pyval"

definition to_dict :: "task \<Rightarrow> pydict" where
  "to_dict tk =
     [''id'' \<mapsto> task_id tk, ''title'' \<mapsto> title tk,
      ''description'' \<mapsto> description tk, ''completed'' \<mapsto> completed tk]"

definition dict_get :: "pydict \<Rightarrow> string \<Rightarrow> pyval \<Rightarrow> pyval" where
  "dict_get data k dflt = (case data k of None \<Rightarrow> dflt | Some v \<Rightarrow> v)"

definition from_dict :: "pydict \<Rightarrow> error + task" where
  "from_dict data =
     (case data ''id'' of None \<Rightarrow> Inl (KeyError ''id'') | Some tid \<Rightarrow>
      case data ''title'' of None \<Rightarrow> Inl (KeyError ''title'') | Some t \<Rightarrow>
        Task_init tid t (dict_get data ''description'' (PyStr []))
                        (dict_get data ''completed'' (PyBool False)))"

section \<open>The service\<close>

text \<open>
  Task objects and list objects live in a store and are held by reference: the service's
  \<^verbatim>\<open>_tasks\<close> is a reference to a list object whose elements are references to Task
  objects. \<open>fresh\<close> is the next unallocated address; what the store holds at an address
  that was never allocated is of no account.
\<close>

type_synonym addr = nat

record state =
  task_objs :: "addr \<Rightarrow> task"
  list_objs :: "addr \<Rightarrow> addr list"
  fresh :: addr
  tasks_ref :: addr
  next_id :: int

text \<open>The contents of \<^verbatim>\<open>self._tasks\<close>, and the tasks themselves in that order.\<close>

definition tasks :: "state \<Rightarrow> addr list" where
  "tasks s = list_objs s (tasks_ref s)"

definition view :: "state \<Rightarrow> task list" where
  "view s = map (task_objs s) (tasks s)"

text \<open>\<^verbatim>\<open>TodoService.__init__\<close>, in an empty store.\<close>

definition TodoService_init :: state where
  "TodoService_init =
     \<lparr>task_objs = (\<lambda>a. \<lparr>task_id = PyNone, title = PyNone, description = PyNone,
                          completed = PyNone\<rparr>),
      list_objs = (\<lambda>a. []),
      fresh = 1,
      tasks_ref = 0,
      next_id = 1\<rparr>"

text \<open>The loop of \<^verbatim>\<open>get_task_by_id\<close>: the first task whose id equals the key.\<close>

fun find_task :: "(addr \<Rightarrow> task) \<Rightarrow> addr list \<Rightarrow> pyval \<Rightarrow> addr option" where
  "find_task objs [] k = None"
| "find_task objs (a # as) k =
     (if py_eq (task_id (objs a)) k then Some a else find_task objs as k)"

definition get_task_by_id :: "state \<Rightarrow> pyval \<Rightarrow> addr option" where
  "get_task_by_id s k = find_task (task_objs s) (tasks s) k"

text \<open>A Task object is always truthy, so \<^verbatim>\<open>not task\<close> holds for \<^verbatim>\<open>None\<close> only.\<close>

definition validate_task_exists :: "state \<Rightarrow> pyval \<Rightarrow> error + addr" where
  "validate_task_exists s k =
     (case get_task_by_id s k of
        None \<Rightarrow> Inl (TaskNotFoundError k)
      | Some a \<Rightarrow> Inr a)"

definition add_task :: "state \<Rightarrow> pyval \<Rightarrow> pyval \<Rightarrow> (error + addr) \<times> state" where
  "add_task s t d =
     (if \<not> truthy t
      then (Inl (InvalidTaskInputError ''Title cannot be empty or whitespace-only''), s)
      else case py_strip t of
        Inl e \<Rightarrow> (Inl e, s)
      | Inr st \<Rightarrow>
          if st = []
          then (Inl (InvalidTaskInputError ''Title cannot be empty or whitespace-only''), s)
          else case Task_init (PyInt (next_id s)) t d (PyBool False) of
            Inl (ValueError m) \<Rightarrow>
              (Inl (InvalidTaskInputError (''Invalid task input: '' @ m)), s)
          | Inl e \<Rightarrow> (Inl e, s)
          | Inr tk \<Rightarrow>
              (Inr (fresh s),
               s\<lparr>task_objs := (task_objs s)(fresh s := tk),
                 list_objs := (list_objs s)(tasks_ref s := tasks s @ [fresh s]),
                 fresh := Suc (fresh s),
                 next_id := next_id s + 1\<rparr>))"

text \<open>\<^verbatim>\<open>self._tasks.copy()\<close> is a new list object with the same elements.\<close>

definition get_all_tasks :: "state \<Rightarrow> addr \<times> state" where
  "get_all_tasks s =
     (fresh s, s\<lparr>list_objs := (list_objs s)(fresh s := tasks s), fresh := Suc (fresh s)\<rparr>)"

text \<open>The assignments \<^verbatim>\<open>task.title = v\<close> and \<^verbatim>\<open>task.description = v\<close> on the object
  at an address, with the wrapping of \<^verbatim>\<open>update_task\<close> around each.\<close>

definition assign_title :: "state \<Rightarrow> addr \<Rightarrow> pyval \<Rightarrow> (error + unit) \<times> state" where
  "assign_title s a v =
     (case set_title (task_objs s a) v of
        Inl (ValueError m) \<Rightarrow> (Inl (InvalidTaskInputError (''Invalid title: '' @ m)), s)
      | Inl e \<Rightarrow> (Inl e, s)
      | Inr tk \<Rightarrow> (Inr (), s\<lparr>task_objs := (task_objs s)(a := tk)\<rparr>))"

definition assign_description :: "state \<Rightarrow> addr \<Rightarrow> pyval \<Rightarrow> (error + unit) \<times> state" where
  "assign_description s a v =
     (case set_description (task_objs s a) v of
        Inl (ValueError m) \<Rightarrow> (Inl (InvalidTaskInputError (''Invalid description: '' @ m)), s)
      | Inl e \<Rightarrow> (Inl e, s)
      | Inr tk \<Rightarrow> (Inr (), s\<lparr>task_objs := (task_objs s)(a := tk)\<rparr>))"

text \<open>\<^verbatim>\<open>update_task\<close>; an argument left out is \<^verbatim>\<open>None\<close>.\<close>

definition update_task :: "state \<Rightarrow> pyval \<Rightarrow> pyval \<Rightarrow> pyval \<Rightarrow> (error + bool) \<times> state" where
  "update_task s k t d =
     (case validate_task_exists s k of
        Inl (TaskNotFoundError _) \<Rightarrow> (Inr False, s)
      | Inl e \<Rightarrow> (Inl e, s)
      | Inr a \<Rightarrow>
          (case (if t \<noteq> PyNone then assign_title s a t else (Inr (), s)) of
             (Inl e, s1) \<Rightarrow> (Inl e, s1)
           | (Inr _, s1) \<Rightarrow>
               (case (if d \<noteq> PyNone then assign_description s1 a d else (Inr (), s1)) of
                  (Inl e, s2) \<Rightarrow> (Inl e, s2)
                | (Inr _, s2) \<Rightarrow> (Inr True, s2))))"

text \<open>The second loop of \<^verbatim>\<open>update_task_status\<close>; the setter's own error is not caught.\<close>

fun status_loop :: "state \<Rightarrow> addr list \<Rightarrow> pyval \<Rightarrow> pyval \<Rightarrow> (error + bool) \<times> state" where
  "status_loop s [] k c = (Inr False, s)"
| "status_loop s (a # as) k c =
     (if py_eq (task_id (task_objs s a)) k
      then case set_completed (task_objs s a) c of
             Inl e \<Rightarrow> (Inl e, s)
           | Inr tk \<Rightarrow> (Inr True, s\<lparr>task_objs := (task_objs s)(a := tk)\<rparr>)
      else status_loop s as k c)"

definition update_task_status :: "state \<Rightarrow> pyval \<Rightarrow> pyval \<Rightarrow> (error + bool) \<times> state" where
  "update_task_status s k c =
     (case validate_task_exists s k of
        Inl (TaskNotFoundError _) \<Rightarrow> (Inr False, s)
      | Inl e \<Rightarrow> (Inl e, s)
      | Inr _ \<Rightarrow>
          if \<not> isinstance_bool c
          then (Inl (InvalidTaskInputError ''Completion status must be a boolean''), s)
          else status_loop s (tasks s) k c)"

text \<open>\<^verbatim>\<open>list.remove(x)\<close> drops the first element that is \<open>x\<close>; Task defines no
  \<^verbatim>\<open>__eq__\<close>, so elements are compared by identity.\<close>

definition list_remove :: "addr list \<Rightarrow> addr \<Rightarrow> error + addr list" where
  "list_remove xs a =
     (if a \<in> set xs then Inr (remove1 a xs)
      else Inl (ValueError ''list.remove(x): x not in list''))"

definition delete_task :: "state \<Rightarrow> pyval \<Rightarrow> (error + bool) \<times> state" where
  "delete_task s k =
     (case validate_task_exists s k of
        Inl (TaskNotFoundError _) \<Rightarrow> (Inr False, s)
      | Inl e \<Rightarrow> (Inl e, s)
      | Inr a \<Rightarrow>
          (case list_remove (tasks s) a of
             Inl e \<Rightarrow> (Inl e, s)
           | Inr xs \<Rightarrow> (Inr True, s\<lparr>list_objs := (list_objs s)(tasks_ref s := xs)\<rparr>)))"

section \<open>Callers, histories and invariants\<close>

text \<open>
  What a caller can do to a list object it holds (append, remove, reorder, clear): the
  object has other contents afterwards.
\<close>

definition list_store :: "state \<Rightarrow> addr \<Rightarrow> addr list \<Rightarrow> state" where
  "list_store s a xs = s\<lparr>list_objs := (list_objs s)(a := xs)\<rparr>"

text \<open>
  The state in which the task at an address has been given a title, a description or a
  flag; a title or description that was not provided (\<^verbatim>\<open>None\<close>) changes nothing. The
  results of the update operations are stated with these.
\<close>

definition with_title :: "state \<Rightarrow> addr \<Rightarrow> pyval \<Rightarrow> state" where
  "with_title s a v =
     (if v = PyNone then s
      else s\<lparr>task_objs := (task_objs s)(a := (task_objs s a)\<lparr>title := v\<rparr>)\<rparr>)"

definition with_description :: "state \<Rightarrow> addr \<Rightarrow> pyval \<Rightarrow> state" where
  "with_description s a v =
     (if v = PyNone then s
      else s\<lparr>task_objs := (task_objs s)(a := (task_objs s a)\<lparr>description := v\<rparr>)\<rparr>)"

definition with_completed :: "state \<Rightarrow> addr \<Rightarrow> pyval \<Rightarrow> state" where
  "with_completed s a v =
     s\<lparr>task_objs := (task_objs s)(a := (task_objs s a)\<lparr>completed := v\<rparr>)\<rparr>"

text \<open>The six operations of the service as commands, and what each returns.\<close>

datatype op =
    AddTask pyval pyval
  | GetAllTasks
  | GetTaskById pyval
  | UpdateTask pyval pyval pyval
  | UpdateTaskStatus pyval pyval
  | DeleteTask pyval

datatype ret = RetTask addr | RetList addr | RetOpt "addr option" | RetBool bool

fun step :: "state \<Rightarrow> op \<Rightarrow> (error + ret) \<times> state" where
  "step s (AddTask t d) = apfst (map_sum id RetTask) (add_task s t d)"
| "step s GetAllTasks = apfst (\<lambda>a. Inr (RetList a)) (get_all_tasks s)"
| "step s (GetTaskById k) = (Inr (RetOpt (get_task_by_id s k)), s)"
| "step s (UpdateTask k t d) = apfst (map_sum id RetBool) (update_task s k t d)"
| "step s (UpdateTaskStatus k c) = apfst (map_sum id RetBool) (update_task_status s k c)"
| "step s (DeleteTask k) = apfst (map_sum id RetBool) (delete_task s k)"

fun run :: "state \<Rightarrow> op list \<Rightarrow> state" where
  "run s [] = s"
| "run s (x # xs) = run (snd (step s x)) xs"

text \<open>The ids of the tasks returned by the successful adds of a history, in order.\<close>

fun assigned :: "state \<Rightarrow> op list \<Rightarrow> pyval list" where
  "assigned s [] = []"
| "assigned s (x # xs) =
     (case step s x of
        (Inr (RetTask a), s') \<Rightarrow> task_id (task_objs s' a) # assigned s' xs
      | (_, s') \<Rightarrow> assigned s' xs)"

text \<open>The keys of the deletes of a history that returned \<^verbatim>\<open>True\<close>.\<close>

fun deleted :: "state \<Rightarrow> op list \<Rightarrow> pyval list" where
  "deleted s [] = []"
| "deleted s (DeleteTask k # xs) =
     (case step s (DeleteTask k) of
        (Inr (RetBool True), s') \<Rightarrow> k # deleted s' xs
      | (_, s') \<Rightarrow> deleted s' xs)"
| "deleted s (x # xs) = deleted (snd (step s x)) xs"

text \<open>A task that passes the four checks of the constructor.\<close>

definition valid_task :: "task \<Rightarrow> bool" where
  "valid_task tk \<longleftrightarrow>
     validate_task_id (task_id tk) = Inr () \<and>
     validate_title (title tk) = Inr () \<and>
     validate_description (description tk) = Inr () \<and>
     validate_completed (completed tk) = Inr ()"

text \<open>
  The states the service can be in: its list and the tasks in it are allocated, no task
  is in the list twice, every id is a positive integer below the counter, no two tasks
  share an id, and every task is valid.
\<close>

definition wf :: "state \<Rightarrow> bool" where
  "wf s \<longleftrightarrow>
     tasks_ref s < fresh s \<and>
     0 < next_id s \<and>
     distinct (tasks s) \<and>
     distinct (map (\<lambda>a. task_id (task_objs s a)) (tasks s)) \<and>
     (\<forall>a\<in>set (tasks s).
        a < fresh s \<and> valid_task (task_objs s a) \<and>
        (case task_id (task_objs s a) of
           PyInt n \<Rightarrow> 0 < n \<and> n < next_id s
         | _ \<Rightarrow> False))"

text \<open>The scenario of the specification: two adds, a delete, another add.\<close>

definition ex1 :: state where
  "ex1 = snd (add_task TodoService_init (PyStr (str ''Buy milk'')) (PyStr []))"

definition ex2 :: state where
  "ex2 = snd (add_task ex1 (PyStr (str ''Clean'')) (PyStr []))"

definition ex3 :: state where
  "ex3 = snd (delete_task ex2 (PyInt 1))"

definition ex4 :: state where
  "ex4 = snd (add_task ex3 (PyStr (str ''Paint'')) (PyStr []))"

definition scenario :: "op list" where
  "scenario =
     [AddTask (PyStr (str ''Buy milk'')) (PyStr []),
      AddTask (PyStr (str ''Clean'')) (PyStr []),
      DeleteTask (PyInt 1),
      AddTask (PyStr (str ''Paint'')) (PyStr [])]"

definition ex_task :: task where
  "ex_task =
     \<lparr>task_id = PyInt 1, title = PyStr (str ''Buy milk''), description = PyStr [],
      completed = PyBool False\<rparr>"

section \<open>Validation\<close>

text \<open>A string strips to nothing exactly when all of it is whitespace.\<close>

lemma strip_empty_iff: "strip s = [] \<longleftrightarrow> (\<forall>c\<in>set s. is_space c)"
proof
  assume "strip s = []"
  then have "dropWhile is_space (rev (dropWhile is_space s)) = []"
    by (simp add: strip_def)
  then have all: "\<forall>c\<in>set (dropWhile is_space s). is_space c"
    by (simp add: dropWhile_eq_Nil_conv)
  have "dropWhile is_space s = []"
  proof (cases "dropWhile is_space s")
    case Nil
    then show ?thesis .
  next
    case (Cons x xs)
    then have "\<not> is_space x" using hd_dropWhile [of is_space s] by simp
    moreover have "is_space x" using all Cons by simp
    ultimately show ?thesis by simp
  qed
  then show "\<forall>c\<in>set s. is_space c" by (simp add: dropWhile_eq_Nil_conv)
next
  assume "\<forall>c\<in>set s. is_space c"
  then have "dropWhile is_space s = []" by (simp add: dropWhile_eq_Nil_conv)
  then show "strip s = []" by (simp add: strip_def del: dropWhile_eq_Nil_conv)
qed

lemma validate_title_str:
  "validate_title (PyStr s) =
     (if s = [] then Inl (ValueError ''Title must be a non-empty string'')
      else if \<forall>c\<in>set s. is_space c then Inl (ValueError ''Title cannot be whitespace-only'')
      else if length s > 200 then Inl (ValueError ''Title must not exceed 200 characters'')
      else Inr ())"
  by (simp add: validate_title_def strip_empty_iff)

lemma validate_title_nonstr:
  "\<not> isinstance_str v \<Longrightarrow> validate_title v = Inl (ValueError ''Title must be a non-empty string'')"
  by (simp add: validate_title_def)

lemma validate_title_cases:
  "validate_title v = Inr () \<or> (\<exists>m. validate_title v = Inl (ValueError m))"
  by (cases v) (simp_all add: validate_title_str validate_title_nonstr)

lemma validate_description_str:
  "validate_description (PyStr s) =
     (if length s > 1000 then Inl (ValueError ''Description must not exceed 1000 characters'')
      else Inr ())"
  by (simp add: validate_description_def)

lemma validate_description_nonstr:
  "\<not> isinstance_str v \<Longrightarrow> validate_description v = Inl (ValueError ''Description must be a string'')"
  by (simp add: validate_description_def)

lemma validate_description_cases:
  "validate_description v = Inr () \<or> (\<exists>m. validate_description v = Inl (ValueError m))"
  by (cases v) (simp_all add: validate_description_str validate_description_nonstr)

lemma validate_completed_cases:
  "validate_completed v = Inr () \<or> (\<exists>m. validate_completed v = Inl (ValueError m))"
  by (simp add: validate_completed_def)

lemma validate_task_id_int:
  "validate_task_id (PyInt i) =
     (if i \<le> 0 then Inl (ValueError ''Task ID must be a positive integer'') else Inr ())"
  by (simp add: validate_task_id_def)

lemma validate_task_id_cases:
  "validate_task_id v = Inr () \<or> (\<exists>m. validate_task_id v = Inl (ValueError m))"
  by (simp add: validate_task_id_def)

lemma Task_init_Inr_iff:
  "Task_init i t d c = Inr tk \<longleftrightarrow>
     tk = \<lparr>task_id = i, title = t, description = d, completed = c\<rparr> \<and> valid_task tk"
  using validate_task_id_cases [of i] validate_title_cases [of t]
    validate_description_cases [of d] validate_completed_cases [of c]
  by (auto simp: Task_init_def valid_task_def)

lemma Task_init_raises_ValueError:
  "Task_init i t d c = Inl e \<Longrightarrow> \<exists>m. e = ValueError m"
  using validate_task_id_cases [of i] validate_title_cases [of t]
    validate_description_cases [of d] validate_completed_cases [of c]
  by (auto simp: Task_init_def)

lemma Task_init_typed:
  "(\<exists>m. Task_init (PyInt i) (PyStr t) (PyStr d) c = Inl (ValueError m)) \<longleftrightarrow>
     i \<le> 0 \<or> t = [] \<or> (\<forall>x\<in>set t. is_space x) \<or> 200 < length t \<or> 1000 < length d \<or>
     \<not> isinstance_bool c"
  by (simp add: Task_init_def validate_task_id_int validate_title_str validate_description_str
        validate_completed_def)

lemma set_title_as_init:
  "valid_task tk \<Longrightarrow> set_title tk v = Task_init (task_id tk) v (description tk) (completed tk)"
  using validate_title_cases [of v]
  by (auto simp: set_title_def Task_init_def valid_task_def)

lemma set_description_as_init:
  "valid_task tk \<Longrightarrow> set_description tk v = Task_init (task_id tk) (title tk) v (completed tk)"
  using validate_description_cases [of v]
  by (auto simp: set_description_def Task_init_def valid_task_def)

lemma set_completed_as_init:
  "valid_task tk \<Longrightarrow> set_completed tk v = Task_init (task_id tk) (title tk) (description tk) v"
  using validate_completed_cases [of v]
  by (auto simp: set_completed_def Task_init_def valid_task_def)

lemma valid_task_iff:
  "valid_task tk \<longleftrightarrow>
     (\<exists>n. int_value (task_id tk) = Some n \<and> 0 < n) \<and>
     (\<exists>s. title tk = PyStr s \<and> \<not> (\<forall>x\<in>set s. is_space x) \<and> length s \<le> 200) \<and>
     (\<exists>s. description tk = PyStr s \<and> length s \<le> 1000) \<and>
     (\<exists>b. completed tk = PyBool b)"
proof -
  have 1: "validate_task_id i = Inr () \<longleftrightarrow> (\<exists>n. int_value i = Some n \<and> 0 < n)" for i
    by (cases i) (auto simp: validate_task_id_def)
  have 2: "validate_title t = Inr () \<longleftrightarrow>
      (\<exists>s. t = PyStr s \<and> \<not> (\<forall>x\<in>set s. is_space x) \<and> length s \<le> 200)" for t
    by (cases t) (auto simp: validate_title_str validate_title_nonstr)
  have 3: "validate_description d = Inr () \<longleftrightarrow> (\<exists>s. d = PyStr s \<and> length s \<le> 1000)" for d
    by (cases d) (auto simp: validate_description_str validate_description_nonstr)
  have 4: "validate_completed c = Inr () \<longleftrightarrow> (\<exists>b. c = PyBool b)" for c
    by (cases c) (auto simp: validate_completed_def)
  show ?thesis unfolding valid_task_def 1 2 3 4 ..
qed

text \<open>
  Claim C3. Constructing a Task from an integer id, a string title, a string description
  and any value for the flag raises the validation error exactly when the id is at most
  0, or the title is empty, all whitespace or longer than 200, or the description is
  longer than 1000, or the flag is not a boolean. On a valid task each setter behaves as
  the constructor would with that one field replaced: it fails with the same error or
  yields the same task. Hence what the constructor returns is valid, and what a setter
  returns from a valid task is valid.
\<close>

theorem task_validation:
  "((\<exists>m. Task_init (PyInt i) (PyStr t) (PyStr d) c = Inl (ValueError m)) \<longleftrightarrow>
      i \<le> 0 \<or> t = [] \<or> (\<forall>x\<in>set t. is_space x) \<or> 200 < length t \<or> 1000 < length d \<or>
      \<not> isinstance_bool c) \<and>
   (valid_task tk \<longrightarrow>
      set_title tk v = Task_init (task_id tk) v (description tk) (completed tk) \<and>
      set_description tk v = Task_init (task_id tk) (title tk) v (completed tk) \<and>
      set_completed tk v = Task_init (task_id tk) (title tk) (description tk) v) \<and>
   (Task_init j u e b = Inr tk' \<longrightarrow> valid_task tk') \<and>
   (valid_task tk \<longrightarrow>
      (set_title tk v = Inr tk' \<longrightarrow> valid_task tk') \<and>
      (set_description tk v = Inr tk' \<longrightarrow> valid_task tk') \<and>
      (set_completed tk v = Inr tk' \<longrightarrow> valid_task tk'))"
proof -
  have setters: "valid_task tk'"
    if "valid_task tk" and "set_title tk v = Inr tk' \<or> set_description tk v = Inr tk' \<or>
      set_completed tk v = Inr tk'"
    using that
    by (auto simp: set_title_as_init set_description_as_init set_completed_as_init
          Task_init_Inr_iff)
  show ?thesis
    using Task_init_typed [of i t d c] setters
    by (simp add: set_title_as_init set_description_as_init set_completed_as_init
          Task_init_Inr_iff) blast
qed

theorem task_validation_witness:
  "valid_task ex_task \<and>
   list_all is_space (str ''  '') \<and>
   Task_init (PyInt 1) (PyStr (str ''  '')) (PyStr []) (PyBool False) =
     Inl (ValueError ''Title cannot be whitespace-only'') \<and>
   set_title ex_task (PyStr (str ''  '')) = Inl (ValueError ''Title cannot be whitespace-only'') \<and>
   set_completed ex_task (PyBool True) = Inr (ex_task\<lparr>completed := PyBool True\<rparr>) \<and>
   valid_task (ex_task\<lparr>completed := PyBool True\<rparr>)"
proof -
  have v: "valid_task ex_task"
    by (simp add: valid_task_def ex_task_def validate_task_id_int validate_title_str
          validate_description_str validate_completed_def str_def is_space_def)
  have sp: "\<forall>x\<in>set (str ''  ''). is_space x"
    by (simp add: str_def is_space_def)
  have c: "set_completed ex_task (PyBool True) = Inr (ex_task\<lparr>completed := PyBool True\<rparr>)"
    by (simp add: set_completed_def validate_completed_def)
  have i: "Task_init (PyInt 1) (PyStr (str ''  '')) (PyStr []) (PyBool False) =
     Inl (ValueError ''Title cannot be whitespace-only'')"
    by (simp add: Task_init_def validate_task_id_int validate_title_str str_def is_space_def)
  have t: "task_id ex_task = PyInt 1" "description ex_task = PyStr []"
    "completed ex_task = PyBool False"
    by (simp_all add: ex_task_def)
  from task_validation [of 1 "str ''  ''" "[]" "PyBool False" ex_task "PyStr (str ''  '')"]
    task_validation [of 1 "str ''  ''" "[]" "PyBool False" ex_task "PyBool True" _ _ _ _
      "ex_task\<lparr>completed := PyBool True\<rparr>"]
  show ?thesis using v sp c i t by (simp add: list_all_iff)
qed

section \<open>Serialisation\<close>

text \<open>
  Claim C8. For every valid Task, \<^verbatim>\<open>from_dict(to_dict(t))\<close> is a Task equal to it in all
  four fields. A Task made by \<^verbatim>\<open>from_dict\<close> from a mapping without the description key
  has the empty description, and one from a mapping without the completed key is not
  completed; with a valid id and title and both keys missing, \<^verbatim>\<open>from_dict\<close> succeeds.
\<close>

theorem from_dict_to_dict:
  "(valid_task tk \<longrightarrow> from_dict (to_dict tk) = Inr tk) \<and>
   (from_dict data = Inr tk' \<longrightarrow>
      (data ''description'' = None \<longrightarrow> description tk' = PyStr []) \<and>
      (data ''completed'' = None \<longrightarrow> completed tk' = PyBool False)) \<and>
   (data ''id'' = Some i \<and> data ''title'' = Some t \<and>
    data ''description'' = None \<and> data ''completed'' = None \<and>
    validate_task_id i = Inr () \<and> validate_title t = Inr () \<longrightarrow>
      from_dict data =
        Inr \<lparr>task_id = i, title = t, description = PyStr [], completed = PyBool False\<rparr>)"
proof -
  have 1: "valid_task tk \<longrightarrow> from_dict (to_dict tk) = Inr tk"
    by (simp add: from_dict_def to_dict_def dict_get_def Task_init_Inr_iff)
  have 2: "from_dict data = Inr tk' \<longrightarrow>
      (data ''description'' = None \<longrightarrow> description tk' = PyStr []) \<and>
      (data ''completed'' = None \<longrightarrow> completed tk' = PyBool False)"
    by (auto simp: from_dict_def dict_get_def Task_init_Inr_iff split: option.splits)
  have 3: "data ''id'' = Some i \<and> data ''title'' = Some t \<and>
    data ''description'' = None \<and> data ''completed'' = None \<and>
    validate_task_id i = Inr () \<and> validate_title t = Inr () \<longrightarrow>
      from_dict data =
        Inr \<lparr>task_id = i, title = t, description = PyStr [], completed = PyBool False\<rparr>"
    by (simp add: from_dict_def dict_get_def Task_init_Inr_iff valid_task_def
          validate_description_str validate_completed_def)
  from 1 2 3 show ?thesis by blast
qed

theorem from_dict_to_dict_witness:
  "valid_task ex_task \<and> from_dict (to_dict ex_task) = Inr ex_task \<and>
   from_dict [''id'' \<mapsto> PyInt 1, ''title'' \<mapsto> PyStr (str ''Buy milk'')] = Inr ex_task \<and>
   description ex_task = PyStr [] \<and> completed ex_task = PyBool False"
proof -
  let ?data = "[''id'' \<mapsto> PyInt 1, ''title'' \<mapsto> PyStr (str ''Buy milk'')]"
  have v: "valid_task ex_task"
    by (simp add: valid_task_def ex_task_def validate_task_id_int validate_title_str
          validate_description_str validate_completed_def str_def is_space_def)
  then have vs: "validate_task_id (PyInt 1) = Inr ()"
    "validate_title (PyStr (str ''Buy milk'')) = Inr ()"
    by (simp_all add: valid_task_def ex_task_def)
  have d: "?data ''id'' = Some (PyInt 1)" "?data ''title'' = Some (PyStr (str ''Buy milk''))"
    "?data ''description'' = None" "?data ''completed'' = None"
    by simp_all
  from from_dict_to_dict [of ex_task ?data ex_task "PyInt 1" "PyStr (str ''Buy milk'')"] v vs d
  show ?thesis by (simp add: ex_task_def)
qed

section \<open>Lookup, update and status\<close>

lemma find_task_mem:
  "find_task objs xs k = Some a \<Longrightarrow> a \<in> set xs \<and> py_eq (task_id (objs a)) k"
  by (induction xs) (auto split: if_splits)

lemma find_task_None:
  "find_task objs xs k = None \<longleftrightarrow> (\<forall>a\<in>set xs. \<not> py_eq (task_id (objs a)) k)"
  by (induction xs) auto

lemma find_task_status_loop:
  "find_task (task_objs s) xs k = Some a \<Longrightarrow>
   status_loop s xs k (PyBool b) = (Inr True, with_completed s a (PyBool b))"
  by (induction xs)
    (auto simp: set_completed_def validate_completed_def with_completed_def split: if_splits)

lemma validate_task_exists_None:
  "get_task_by_id s k = None \<Longrightarrow> validate_task_exists s k = Inl (TaskNotFoundError k)"
  by (simp add: validate_task_exists_def)

lemma validate_task_exists_Some:
  "get_task_by_id s k = Some a \<Longrightarrow> validate_task_exists s k = Inr a"
  by (simp add: validate_task_exists_def)

lemma update_task_status_None:
  "get_task_by_id s k = None \<Longrightarrow> update_task_status s k c = (Inr False, s)"
  by (simp add: update_task_status_def validate_task_exists_None)

lemma update_task_status_not_bool:
  "get_task_by_id s k = Some a \<Longrightarrow> \<not> isinstance_bool c \<Longrightarrow>
   update_task_status s k c =
     (Inl (InvalidTaskInputError ''Completion status must be a boolean''), s)"
  by (simp add: update_task_status_def validate_task_exists_Some)

lemma update_task_status_bool:
  "get_task_by_id s k = Some a \<Longrightarrow>
   update_task_status s k (PyBool b) = (Inr True, with_completed s a (PyBool b))"
  by (simp add: update_task_status_def validate_task_exists_Some get_task_by_id_def
        find_task_status_loop)

lemma update_task_None:
  "get_task_by_id s k = None \<Longrightarrow> update_task s k t d = (Inr False, s)"
  by (simp add: update_task_def validate_task_exists_None)

lemma delete_task_None:
  "get_task_by_id s k = None \<Longrightarrow> delete_task s k = (Inr False, s)"
  by (simp add: delete_task_def validate_task_exists_None)

lemma assign_title_ok:
  "v \<noteq> PyNone \<Longrightarrow> validate_title v = Inr () \<Longrightarrow> assign_title s a v = (Inr (), with_title s a v)"
  by (simp add: assign_title_def set_title_def with_title_def)

lemma assign_title_bad:
  "validate_title v = Inl (ValueError m) \<Longrightarrow>
   assign_title s a v = (Inl (InvalidTaskInputError (''Invalid title: '' @ m)), s)"
  by (simp add: assign_title_def set_title_def)

lemma assign_description_ok:
  "v \<noteq> PyNone \<Longrightarrow> validate_description v = Inr () \<Longrightarrow>
   assign_description s a v = (Inr (), with_description s a v)"
  by (simp add: assign_description_def set_description_def with_description_def)

lemma assign_description_bad:
  "validate_description v = Inl (ValueError m) \<Longrightarrow>
   assign_description s a v = (Inl (InvalidTaskInputError (''Invalid description: '' @ m)), s)"
  by (simp add: assign_description_def set_description_def)

lemma update_task_bad_title:
  "get_task_by_id s k = Some a \<Longrightarrow> t \<noteq> PyNone \<Longrightarrow> validate_title t = Inl (ValueError m) \<Longrightarrow>
   update_task s k t d = (Inl (InvalidTaskInputError (''Invalid title: '' @ m)), s)"
  by (simp add: update_task_def validate_task_exists_Some assign_title_bad)

lemma update_task_title_step:
  "t = PyNone \<or> validate_title t = Inr () \<Longrightarrow>
   (if t \<noteq> PyNone then assign_title s a t else (Inr (), s)) = (Inr (), with_title s a t)"
  by (cases "t = PyNone") (simp_all add: assign_title_ok with_title_def)

lemma update_task_no_description:
  "get_task_by_id s k = Some a \<Longrightarrow> t = PyNone \<or> validate_title t = Inr () \<Longrightarrow>
   update_task s k t PyNone = (Inr True, with_title s a t)"
  by (simp add: update_task_def validate_task_exists_Some update_task_title_step)

lemma update_task_ok:
  "get_task_by_id s k = Some a \<Longrightarrow> t = PyNone \<or> validate_title t = Inr () \<Longrightarrow>
   d = PyNone \<or> validate_description d = Inr () \<Longrightarrow>
   update_task s k t d = (Inr True, with_description (with_title s a t) a d)"
  by (cases "d = PyNone")
    (simp_all add: update_task_def validate_task_exists_Some update_task_title_step
      assign_description_ok, simp add: with_description_def)

lemma update_task_bad_description:
  "get_task_by_id s k = Some a \<Longrightarrow> t = PyNone \<or> validate_title t = Inr () \<Longrightarrow>
   d \<noteq> PyNone \<Longrightarrow> validate_description d = Inl (ValueError m) \<Longrightarrow>
   update_task s k t d =
     (Inl (InvalidTaskInputError (''Invalid description: '' @ m)), with_title s a t)"
  by (simp add: update_task_def validate_task_exists_Some update_task_title_step
      assign_description_bad)


lemma add_task_ok:
  assumes "validate_title t = Inr ()" and "validate_description d = Inr ()" and "0 < next_id s"
  shows "add_task s t d =
     (Inr (fresh s),
      s\<lparr>task_objs := (task_objs s)(fresh s :=
            \<lparr>task_id = PyInt (next_id s), title = t, description = d,
              completed = PyBool False\<rparr>),
        list_objs := (list_objs s)(tasks_ref s := tasks s @ [fresh s]),
        fresh := Suc (fresh s),
        next_id := next_id s + 1\<rparr>)"
proof -
  from assms(1) obtain st where t: "t = PyStr st" and st: "st \<noteq> []" "strip st \<noteq> []"
    by (cases t) (auto simp: validate_title_def split: if_splits)
  have "Task_init (PyInt (next_id s)) t d (PyBool False) =
      Inr \<lparr>task_id = PyInt (next_id s), title = t, description = d, completed = PyBool False\<rparr>"
    using assms by (simp add: Task_init_def validate_task_id_int validate_completed_def)
  then show ?thesis using t st by (simp add: add_task_def)
qed

lemma title_examples:
  "validate_title (PyStr (str ''Buy milk'')) = Inr ()"
  "validate_title (PyStr (str ''Clean'')) = Inr ()"
  "validate_title (PyStr (str ''Paint'')) = Inr ()"
  by (simp_all add: validate_title_str str_def is_space_def)

lemma description_empty: "validate_description (PyStr []) = Inr ()"
  by (simp add: validate_description_str)

lemma init_fields:
  "tasks TodoService_init = []" "fresh TodoService_init = 1" "tasks_ref TodoService_init = 0"
  "next_id TodoService_init = 1"
  by (simp_all add: TodoService_init_def tasks_def)

lemma ex1_fields:
  "tasks ex1 = [1]" "fresh ex1 = 2" "tasks_ref ex1 = 0" "next_id ex1 = 2"
  "task_objs ex1 (Suc 0) = ex_task"
proof -
  have "0 < next_id TodoService_init" by (simp add: init_fields)
  from add_task_ok [OF title_examples(1) description_empty this]
  have e: "ex1 = TodoService_init\<lparr>task_objs := (task_objs TodoService_init)(1 := ex_task),
        list_objs := (list_objs TodoService_init)(0 := [1]), fresh := 2, next_id := 2\<rparr>"
    by (simp add: ex1_def init_fields ex_task_def)
  show "tasks ex1 = [1]" "fresh ex1 = 2" "tasks_ref ex1 = 0" "next_id ex1 = 2"
    "task_objs ex1 (Suc 0) = ex_task"
    by (simp_all add: e tasks_def init_fields)
qed

lemma ex1_get: "get_task_by_id ex1 (PyInt 1) = Some 1"
  by (simp add: get_task_by_id_def ex1_fields ex_task_def)

lemma init_get: "get_task_by_id TodoService_init k = None"
  by (simp add: get_task_by_id_def init_fields)

lemma tasks_task_objs_update: "tasks (s\<lparr>task_objs := f\<rparr>) = tasks s"
  by (simp add: tasks_def)

lemma tasks_with:
  "tasks (with_title s a v) = tasks s" "tasks (with_description s a v) = tasks s"
  "tasks (with_completed s a v) = tasks s"
  by (simp_all add: with_title_def with_description_def with_completed_def tasks_def)

text \<open>
  Claim C10. In \<^verbatim>\<open>update_task_status\<close> the existence check comes before the boolean
  check: when no task has the id, the call returns \<^verbatim>\<open>False\<close> and changes nothing,
  whatever the value given for the flag; and when the call raises
  \<^verbatim>\<open>InvalidTaskInputError\<close>, a task with that id exists.
\<close>

theorem update_task_status_existence_first:
  "(get_task_by_id s k = None \<longrightarrow> update_task_status s k c = (Inr False, s)) \<and>
   (\<forall>m. fst (update_task_status s k c) = Inl (InvalidTaskInputError m) \<longrightarrow>
        get_task_by_id s k \<noteq> None)"
  by (cases "get_task_by_id s k") (auto simp: update_task_status_None)

theorem update_task_status_existence_first_witness:
  "get_task_by_id TodoService_init (PyInt 999) = None \<and>
   update_task_status TodoService_init (PyInt 999) (PyStr (str ''invalid'')) =
     (Inr False, TodoService_init) \<and>
   fst (update_task_status ex1 (PyInt 1) (PyStr (str ''invalid''))) =
     Inl (InvalidTaskInputError ''Completion status must be a boolean'') \<and>
   get_task_by_id ex1 (PyInt 1) \<noteq> None"
  using update_task_status_existence_first
      [of TodoService_init "PyInt 999" "PyStr (str ''invalid'')"]
    update_task_status_existence_first [of ex1 "PyInt 1" "PyStr (str ''invalid'')"]
  by (simp add: init_get ex1_get update_task_status_not_bool [OF ex1_get])

text \<open>
  Claim C5. \<^verbatim>\<open>update_task_status\<close> returns \<^verbatim>\<open>False\<close> when no task has the id; when
  one has, it raises \<^verbatim>\<open>InvalidTaskInputError\<close> for a flag that is not a boolean and
  changes nothing, and for a boolean it sets the flag of that task to the given value,
  changes nothing else and returns \<^verbatim>\<open>True\<close>.
\<close>

theorem update_task_status_spec:
  "(get_task_by_id s k = None \<longrightarrow> update_task_status s k c = (Inr False, s)) \<and>
   (get_task_by_id s k = Some a \<longrightarrow>
      (\<not> isinstance_bool c \<longrightarrow>
         update_task_status s k c =
           (Inl (InvalidTaskInputError ''Completion status must be a boolean''), s)) \<and>
      update_task_status s k (PyBool b) = (Inr True, with_completed s a (PyBool b)) \<and>
      completed (task_objs (with_completed s a (PyBool b)) a) = PyBool b)"
  by (simp add: update_task_status_None update_task_status_not_bool update_task_status_bool
        with_completed_def)

theorem update_task_status_spec_witness:
  "get_task_by_id TodoService_init (PyInt 1) = None \<and>
   update_task_status TodoService_init (PyInt 1) (PyBool True) = (Inr False, TodoService_init) \<and>
   get_task_by_id ex1 (PyInt 1) = Some 1 \<and>
   \<not> isinstance_bool (PyInt 1) \<and>
   update_task_status ex1 (PyInt 1) (PyInt 1) =
     (Inl (InvalidTaskInputError ''Completion status must be a boolean''), ex1) \<and>
   update_task_status ex1 (PyInt 1) (PyBool True) =
     (Inr True, with_completed ex1 1 (PyBool True)) \<and>
   view (with_completed ex1 1 (PyBool True)) = [ex_task\<lparr>completed := PyBool True\<rparr>]"
  using update_task_status_spec [where s = TodoService_init and k = "PyInt 1"
      and c = "PyBool True"]
    update_task_status_spec [where s = ex1 and k = "PyInt 1" and a = 1 and c = "PyInt 1"
      and b = True]
  by (simp add: init_get ex1_get view_def tasks_with ex1_fields)
    (simp add: with_completed_def ex1_fields)

lemma validate_title_not_ok:
  "validate_title t \<noteq> Inr () \<Longrightarrow> \<exists>m. validate_title t = Inl (ValueError m)"
  using validate_title_cases [of t] by blast

lemma validate_description_not_ok:
  "validate_description d \<noteq> Inr () \<Longrightarrow> \<exists>m. validate_description d = Inl (ValueError m)"
  using validate_description_cases [of d] by blast

text \<open>
  Claim C4. \<^verbatim>\<open>update_task\<close> returns \<^verbatim>\<open>False\<close> when no task has the id. When one has,
  only the fields provided are applied, the title first: a provided title that fails
  validation raises \<^verbatim>\<open>InvalidTaskInputError\<close> with nothing changed (the description in
  particular); otherwise the title is applied, and then a provided description that
  fails validation raises \<^verbatim>\<open>InvalidTaskInputError\<close>, while one that passes or is absent
  is applied and the call returns \<^verbatim>\<open>True\<close>. With neither field provided the call
  returns \<^verbatim>\<open>True\<close> and changes nothing.
\<close>

theorem update_task_spec:
  "(get_task_by_id s k = None \<longrightarrow> update_task s k t d = (Inr False, s)) \<and>
   (get_task_by_id s k = Some a \<longrightarrow>
      (t \<noteq> PyNone \<and> validate_title t \<noteq> Inr () \<longrightarrow>
         (\<exists>m. update_task s k t d = (Inl (InvalidTaskInputError m), s))) \<and>
      (t = PyNone \<or> validate_title t = Inr () \<longrightarrow>
         (d = PyNone \<or> validate_description d = Inr () \<longrightarrow>
            update_task s k t d = (Inr True, with_description (with_title s a t) a d)) \<and>
         (d \<noteq> PyNone \<and> validate_description d \<noteq> Inr () \<longrightarrow>
            (\<exists>m. update_task s k t d = (Inl (InvalidTaskInputError m), with_title s a t)))) \<and>
      update_task s k PyNone PyNone = (Inr True, s))"
proof -
  have none: "get_task_by_id s k = None \<longrightarrow> update_task s k t d = (Inr False, s)"
    by (simp add: update_task_None)
  have bad_title: "\<exists>m. update_task s k t d = (Inl (InvalidTaskInputError m), s)"
    if "get_task_by_id s k = Some a" "t \<noteq> PyNone" "validate_title t \<noteq> Inr ()"
    using that validate_title_not_ok [of t] by (auto simp: update_task_bad_title)
  have ok: "update_task s k t d = (Inr True, with_description (with_title s a t) a d)"
    if "get_task_by_id s k = Some a" "t = PyNone \<or> validate_title t = Inr ()"
      "d = PyNone \<or> validate_description d = Inr ()"
    using that by (rule update_task_ok)
  have bad_description:
    "\<exists>m. update_task s k t d = (Inl (InvalidTaskInputError m), with_title s a t)"
    if "get_task_by_id s k = Some a" "t = PyNone \<or> validate_title t = Inr ()"
      "d \<noteq> PyNone" "validate_description d \<noteq> Inr ()"
    using that validate_description_not_ok [of d] by (auto simp: update_task_bad_description)
  have noop: "update_task s k PyNone PyNone = (Inr True, s)" if "get_task_by_id s k = Some a"
    using update_task_ok [OF that, of PyNone PyNone]
    by (simp add: with_title_def with_description_def)
  from none bad_title ok bad_description noop show ?thesis by blast
qed

lemma title_milk: "validate_title (PyStr (str ''Milk'')) = Inr ()"
  by (simp add: validate_title_str str_def is_space_def)

lemma title_empty: "validate_title (PyStr []) \<noteq> Inr ()"
  by (simp add: validate_title_str)

theorem update_task_spec_witness:
  "get_task_by_id TodoService_init (PyInt 999) = None \<and>
   update_task TodoService_init (PyInt 999) (PyStr (str ''Milk'')) PyNone =
     (Inr False, TodoService_init) \<and>
   get_task_by_id ex1 (PyInt 1) = Some 1 \<and>
   validate_title (PyStr []) \<noteq> Inr () \<and>
   snd (update_task ex1 (PyInt 1) (PyStr []) (PyStr [])) = ex1 \<and>
   validate_title (PyStr (str ''Milk'')) = Inr () \<and>
   update_task ex1 (PyInt 1) (PyStr (str ''Milk'')) PyNone =
     (Inr True, with_title ex1 1 (PyStr (str ''Milk''))) \<and>
   view (with_title ex1 1 (PyStr (str ''Milk''))) = [ex_task\<lparr>title := PyStr (str ''Milk'')\<rparr>] \<and>
   update_task ex1 (PyInt 1) PyNone PyNone = (Inr True, ex1)"
proof -
  have v: "view (with_title ex1 1 (PyStr (str ''Milk''))) =
      [ex_task\<lparr>title := PyStr (str ''Milk'')\<rparr>]"
    by (simp add: view_def tasks_with ex1_fields) (simp add: with_title_def ex1_fields)
  have w: "with_description (with_title ex1 1 (PyStr (str ''Milk''))) 1 PyNone =
      with_title ex1 1 (PyStr (str ''Milk''))"
    by (simp add: with_description_def)
  from update_task_spec [where s = TodoService_init and k = "PyInt 999"
      and t = "PyStr (str ''Milk'')" and d = PyNone]
    update_task_spec [where s = ex1 and k = "PyInt 1" and a = 1 and t = "PyStr []"
      and d = "PyStr []"]
    update_task_spec [where s = ex1 and k = "PyInt 1" and a = 1 and t = "PyStr (str ''Milk'')"
      and d = PyNone]
  show ?thesis
    using v w by (auto simp: init_get ex1_get title_milk title_empty)
qed

lemma add_task_invalid:
  assumes "ts = [] \<or> (\<forall>x\<in>set ts. is_space x) \<or> 200 < length ts \<or> 1000 < length ds"
  shows "\<exists>m. add_task s (PyStr ts) (PyStr ds) = (Inl (InvalidTaskInputError m), s)"
proof (cases "ts = [] \<or> (\<forall>x\<in>set ts. is_space x)")
  case True
  then show ?thesis by (auto simp: add_task_def strip_empty_iff)
next
  case False
  with assms have long: "200 < length ts \<or> 1000 < length ds" by blast
  from False have pre: "truthy (PyStr ts)" "strip ts \<noteq> []"
    by (auto simp: strip_empty_iff)
  have "\<exists>e. Task_init (PyInt (next_id s)) (PyStr ts) (PyStr ds) (PyBool False) = Inl e"
    using long validate_task_id_cases [of "PyInt (next_id s)"]
    by (auto simp: Task_init_def validate_title_str validate_description_str)
  then obtain m where
    "Task_init (PyInt (next_id s)) (PyStr ts) (PyStr ds) (PyBool False) = Inl (ValueError m)"
    using Task_init_raises_ValueError by blast
  then show ?thesis using pre by (simp add: add_task_def)
qed

section \<open>Invalid input\<close>

lemma with_title_frame:
  "list_objs (with_title s a v) = list_objs s"
  "tasks_ref (with_title s a v) = tasks_ref s"
  "fresh (with_title s a v) = fresh s"
  "next_id (with_title s a v) = next_id s"
  "a' \<noteq> a \<Longrightarrow> task_objs (with_title s a v) a' = task_objs s a'"
  "task_id (task_objs (with_title s a v) a) = task_id (task_objs s a)"
  "description (task_objs (with_title s a v) a) = description (task_objs s a)"
  "completed (task_objs (with_title s a v) a) = completed (task_objs s a)"
  by (simp_all add: with_title_def)

lemma description_too_long:
  "1000 < length ds \<Longrightarrow> validate_description (PyStr ds) \<noteq> Inr ()"
  by (simp add: validate_description_str)

lemma title_invalid:
  "ts = [] \<or> (\<forall>x\<in>set ts. is_space x) \<or> 200 < length ts \<Longrightarrow>
   validate_title (PyStr ts) \<noteq> Inr ()"
  by (auto simp: validate_title_str)

text \<open>
  Claim C1, as the code has it. \<^verbatim>\<open>add_task\<close> with a title that is empty, all whitespace
  or longer than 200, or a description longer than 1000, raises
  \<^verbatim>\<open>InvalidTaskInputError\<close> and leaves the state as it was. On the id of a task in the
  registry, \<^verbatim>\<open>update_task\<close> with such a title, or with such a description and no
  title, and \<^verbatim>\<open>update_task_status\<close> with a flag that is not a boolean, raise
  \<^verbatim>\<open>InvalidTaskInputError\<close> and leave the state as it was; \<^verbatim>\<open>update_task\<close> with a
  valid title and such a description raises \<^verbatim>\<open>InvalidTaskInputError\<close> and leaves the
  collection, the counter, every other task and the id, description and flag of that
  task as they were. On an id that no task has, both return \<^verbatim>\<open>False\<close> and change
  nothing.
\<close>

theorem invalid_input_leaves_state:
  "(ts = [] \<or> (\<forall>x\<in>set ts. is_space x) \<or> 200 < length ts \<or> 1000 < length ds \<longrightarrow>
      (\<exists>m. add_task s (PyStr ts) (PyStr ds) = (Inl (InvalidTaskInputError m), s))) \<and>
   (get_task_by_id s k = Some a \<longrightarrow>
      (ts = [] \<or> (\<forall>x\<in>set ts. is_space x) \<or> 200 < length ts \<longrightarrow>
         (\<exists>m. update_task s k (PyStr ts) d = (Inl (InvalidTaskInputError m), s))) \<and>
      (1000 < length ds \<longrightarrow>
         (\<exists>m. update_task s k PyNone (PyStr ds) = (Inl (InvalidTaskInputError m), s))) \<and>
      (validate_title t = Inr () \<and> 1000 < length ds \<longrightarrow>
         (\<exists>m s'. update_task s k t (PyStr ds) = (Inl (InvalidTaskInputError m), s') \<and>
            list_objs s' = list_objs s \<and> tasks_ref s' = tasks_ref s \<and>
            fresh s' = fresh s \<and> next_id s' = next_id s \<and>
            (\<forall>a'. a' \<noteq> a \<longrightarrow> task_objs s' a' = task_objs s a') \<and>
            task_id (task_objs s' a) = task_id (task_objs s a) \<and>
            description (task_objs s' a) = description (task_objs s a) \<and>
            completed (task_objs s' a) = completed (task_objs s a))) \<and>
      (\<not> isinstance_bool c \<longrightarrow>
         (\<exists>m. update_task_status s k c = (Inl (InvalidTaskInputError m), s)))) \<and>
   (get_task_by_id s k = None \<longrightarrow>
      update_task s k t d = (Inr False, s) \<and> update_task_status s k c = (Inr False, s))"
proof -
  have add: "ts = [] \<or> (\<forall>x\<in>set ts. is_space x) \<or> 200 < length ts \<or> 1000 < length ds \<longrightarrow>
      (\<exists>m. add_task s (PyStr ts) (PyStr ds) = (Inl (InvalidTaskInputError m), s))"
    using add_task_invalid by blast
  have upd_title: "\<exists>m. update_task s k (PyStr ts) d = (Inl (InvalidTaskInputError m), s)"
    if "get_task_by_id s k = Some a" "ts = [] \<or> (\<forall>x\<in>set ts. is_space x) \<or> 200 < length ts"
  proof -
    from title_invalid [OF that(2)] obtain m where "validate_title (PyStr ts) = Inl (ValueError m)"
      using validate_title_not_ok by blast
    with that(1) show ?thesis by (simp add: update_task_bad_title)
  qed
  have upd_desc: "\<exists>m. update_task s k t' (PyStr ds) =
      (Inl (InvalidTaskInputError m), with_title s a t')"
    if "get_task_by_id s k = Some a" "1000 < length ds" "t' = PyNone \<or> validate_title t' = Inr ()"
    for t'
  proof -
    from description_too_long [OF that(2)] obtain m where
      "validate_description (PyStr ds) = Inl (ValueError m)"
      using validate_description_not_ok by blast
    with that(1,3) show ?thesis by (simp add: update_task_bad_description)
  qed
  have upd_desc_only: "\<exists>m. update_task s k PyNone (PyStr ds) = (Inl (InvalidTaskInputError m), s)"
    if "get_task_by_id s k = Some a" "1000 < length ds"
    using upd_desc [OF that, of PyNone] by (simp add: with_title_def)
  have upd_both: "\<exists>m s'. update_task s k t (PyStr ds) = (Inl (InvalidTaskInputError m), s') \<and>
            list_objs s' = list_objs s \<and> tasks_ref s' = tasks_ref s \<and>
            fresh s' = fresh s \<and> next_id s' = next_id s \<and>
            (\<forall>a'. a' \<noteq> a \<longrightarrow> task_objs s' a' = task_objs s a') \<and>
            task_id (task_objs s' a) = task_id (task_objs s a) \<and>
            description (task_objs s' a) = description (task_objs s a) \<and>
            completed (task_objs s' a) = completed (task_objs s a)"
    if "get_task_by_id s k = Some a" "validate_title t = Inr ()" "1000 < length ds"
  proof -
    from upd_desc [OF that(1,3), of t] that(2) obtain m where
      "update_task s k t (PyStr ds) = (Inl (InvalidTaskInputError m), with_title s a t)"
      by blast
    then show ?thesis by (simp add: with_title_frame)
  qed
  have status: "\<exists>m. update_task_status s k c = (Inl (InvalidTaskInputError m), s)"
    if "get_task_by_id s k = Some a" "\<not> isinstance_bool c"
    using that by (simp add: update_task_status_not_bool)
  have none: "get_task_by_id s k = None \<longrightarrow>
      update_task s k t d = (Inr False, s) \<and> update_task_status s k c = (Inr False, s)"
    by (simp add: update_task_None update_task_status_None)
  from add upd_title upd_desc_only upd_both status none show ?thesis by blast
qed


lemma long_description:
  "validate_description (PyStr (replicate 1001 120)) =
     Inl (ValueError ''Description must not exceed 1000 characters'')"
  by (simp add: validate_description_str)

lemma ex1_update_long:
  "update_task ex1 (PyInt 1) (PyStr (str ''Milk'')) (PyStr (replicate 1001 120)) =
     (Inl (InvalidTaskInputError
        ''Invalid description: Description must not exceed 1000 characters''),
      with_title ex1 1 (PyStr (str ''Milk'')))"
  using update_task_bad_description [OF ex1_get _ _ long_description, of "PyStr (str ''Milk'')"]
  by (simp add: title_milk)

theorem invalid_input_leaves_state_witness:
  "snd (add_task ex1 (PyStr []) (PyStr (replicate 1001 120))) = ex1 \<and>
   get_task_by_id ex1 (PyInt 1) = Some 1 \<and>
   snd (update_task ex1 (PyInt 1) (PyStr []) PyNone) = ex1 \<and>
   snd (update_task ex1 (PyInt 1) PyNone (PyStr (replicate 1001 120))) = ex1 \<and>
   validate_title (PyStr (str ''Milk'')) = Inr () \<and>
   next_id (snd (update_task ex1 (PyInt 1) (PyStr (str ''Milk''))
     (PyStr (replicate 1001 120)))) = 2 \<and>
   \<not> isinstance_bool (PyInt 1) \<and>
   snd (update_task_status ex1 (PyInt 1) (PyInt 1)) = ex1 \<and>
   get_task_by_id TodoService_init (PyInt 1) = None \<and>
   update_task TodoService_init (PyInt 1) (PyStr []) PyNone = (Inr False, TodoService_init) \<and>
   update_task_status TodoService_init (PyInt 1) (PyInt 1) = (Inr False, TodoService_init)"
  using invalid_input_leaves_state [where s = ex1 and k = "PyInt 1" and a = 1 and ts = "[]"
      and ds = "replicate 1001 120" and t = "PyStr (str ''Milk'')" and c = "PyInt 1"
      and d = PyNone]
    invalid_input_leaves_state [where s = TodoService_init and k = "PyInt 1" and c = "PyInt 1"
      and t = "PyStr []" and d = PyNone and ts = "[]" and ds = "[]"]
  by (auto simp: ex1_get init_get title_milk ex1_fields)

text \<open>
  Claim C1 as stated fails: in the registry holding the task ``Buy milk'', an update with
  the title ``Milk'' and a description of 1001 characters raises
  \<^verbatim>\<open>InvalidTaskInputError\<close>, yet the title is ``Milk'' afterwards; and
  \<^verbatim>\<open>update_task_status\<close> with a flag that is not a boolean does not raise on an id that
  no task has.
\<close>

theorem update_task_partial_counterexample:
  "fst (update_task ex1 (PyInt 1) (PyStr (str ''Milk'')) (PyStr (replicate 1001 120))) =
     Inl (InvalidTaskInputError
       ''Invalid description: Description must not exceed 1000 characters'') \<and>
   title (task_objs ex1 1) = PyStr (str ''Buy milk'') \<and>
   title (task_objs (snd (update_task ex1 (PyInt 1) (PyStr (str ''Milk''))
     (PyStr (replicate 1001 120)))) 1) = PyStr (str ''Milk'') \<and>
   str ''Milk'' \<noteq> str ''Buy milk'' \<and>
   update_task_status TodoService_init (PyInt 1) (PyStr (str ''done'')) =
     (Inr False, TodoService_init)"
  by (simp add: ex1_update_long ex1_fields update_task_status_None init_get)
    (simp add: with_title_def ex_task_def str_def)

section \<open>The copy returned by get_all_tasks\<close>

lemma get_all_tasks_fields:
  "fst (get_all_tasks s) = fresh s"
  "task_objs (snd (get_all_tasks s)) = task_objs s"
  "tasks_ref (snd (get_all_tasks s)) = tasks_ref s"
  "next_id (snd (get_all_tasks s)) = next_id s"
  "fresh (snd (get_all_tasks s)) = Suc (fresh s)"
  "list_objs (snd (get_all_tasks s)) (fresh s) = tasks s"
  by (simp_all add: get_all_tasks_def)

lemma get_all_tasks_tasks:
  "tasks_ref s < fresh s \<Longrightarrow> tasks (snd (get_all_tasks s)) = tasks s"
  by (simp add: get_all_tasks_def tasks_def)

lemma list_store_other:
  "a \<noteq> tasks_ref s \<Longrightarrow> tasks (list_store s a xs) = tasks s"
  by (simp add: list_store_def tasks_def)

lemma list_store_fields:
  "task_objs (list_store s a xs) = task_objs s" "tasks_ref (list_store s a xs) = tasks_ref s"
  "next_id (list_store s a xs) = next_id s" "fresh (list_store s a xs) = fresh s"
  by (simp_all add: list_store_def)

text \<open>
  Claim C9. \<^verbatim>\<open>get_all_tasks\<close> returns a copy: the list object it returns is not the
  service's own and holds the same elements. Whatever contents a caller gives the
  returned list afterwards, the service's collection, the tasks it shows, every lookup
  by id and the contents of the next copy are as before.
\<close>

theorem get_all_tasks_defensive_copy:
  assumes "tasks_ref s < fresh s" and "get_all_tasks s = (r, s1)"
  shows "r \<noteq> tasks_ref s1 \<and> list_objs s1 r = tasks s \<and>
     tasks (list_store s1 r xs) = tasks s \<and>
     view (list_store s1 r xs) = view s \<and>
     get_task_by_id (list_store s1 r xs) k = get_task_by_id s k \<and>
     list_objs (snd (get_all_tasks (list_store s1 r xs)))
       (fst (get_all_tasks (list_store s1 r xs))) = tasks s"
proof -
  from assms(2) have "fst (get_all_tasks s) = r" and "snd (get_all_tasks s) = s1"
    by simp_all
  then have r: "r = fresh s" and s1: "s1 = snd (get_all_tasks s)"
    by (simp_all add: get_all_tasks_fields)
  have ne: "r \<noteq> tasks_ref s1"
    using assms(1) by (simp add: r s1 get_all_tasks_fields)
  have copy: "list_objs s1 r = tasks s"
    by (simp add: r s1 get_all_tasks_fields)
  have t: "tasks (list_store s1 r xs) = tasks s"
    using ne assms(1) by (simp add: list_store_other) (simp add: s1 get_all_tasks_tasks)
  have o: "task_objs (list_store s1 r xs) = task_objs s"
    by (simp add: list_store_fields s1 get_all_tasks_fields)
  have v: "view (list_store s1 r xs) = view s"
    by (simp add: view_def t o)
  have g: "get_task_by_id (list_store s1 r xs) k = get_task_by_id s k"
    by (simp add: get_task_by_id_def t o)
  have again: "list_objs (snd (get_all_tasks (list_store s1 r xs)))
       (fst (get_all_tasks (list_store s1 r xs))) = tasks s"
    by (simp add: get_all_tasks_fields t)
  from ne copy t v g again show ?thesis by blast
qed

theorem get_all_tasks_defensive_copy_witness:
  "tasks_ref ex1 < fresh ex1 \<and> get_all_tasks ex1 = (2, snd (get_all_tasks ex1)) \<and>
   list_objs (snd (get_all_tasks ex1)) 2 = [1] \<and>
   tasks (list_store (snd (get_all_tasks ex1)) 2 []) = [1] \<and>
   view (list_store (snd (get_all_tasks ex1)) 2 []) = [ex_task] \<and>
   get_task_by_id (list_store (snd (get_all_tasks ex1)) 2 []) (PyInt 1) = Some 1"
proof -
  have h: "tasks_ref ex1 < fresh ex1" by (simp add: ex1_fields)
  have g: "get_all_tasks ex1 = (2, snd (get_all_tasks ex1))"
    by (simp add: get_all_tasks_def ex1_fields)
  from get_all_tasks_defensive_copy [OF h g, of "[]" "PyInt 1"] h g
  show ?thesis
    by (simp add: ex1_fields ex1_get view_def list_store_fields get_all_tasks_fields)
qed

section \<open>The invariant of the registry\<close>

lemma py_eq_PyInt: "py_eq (PyInt n) k \<longleftrightarrow> int_value k = Some n"
  by (cases k) auto

lemma id_case_iff:
  "(case v of PyInt n \<Rightarrow> 0 < n \<and> n < m | _ \<Rightarrow> False) \<longleftrightarrow>
   (\<exists>n. v = PyInt n \<and> 0 < n \<and> n < m)"
  by (cases v) auto

lemma wf_iff:
  "wf s \<longleftrightarrow>
     tasks_ref s < fresh s \<and> 0 < next_id s \<and> distinct (tasks s) \<and>
     distinct (map (\<lambda>a. task_id (task_objs s a)) (tasks s)) \<and>
     (\<forall>a\<in>set (tasks s). a < fresh s \<and> valid_task (task_objs s a) \<and>
        (\<exists>n. task_id (task_objs s a) = PyInt n \<and> 0 < n \<and> n < next_id s))"
  by (simp add: wf_def id_case_iff)

lemma wf_idD:
  "wf s \<Longrightarrow> a \<in> set (tasks s) \<Longrightarrow>
   \<exists>n. task_id (task_objs s a) = PyInt n \<and> 0 < n \<and> n < next_id s"
  by (simp add: wf_iff)

lemma wfI:
  assumes "tasks_ref s < fresh s" and "0 < next_id s" and "distinct (tasks s)"
    and "distinct (map (\<lambda>a. task_id (task_objs s a)) (tasks s))"
    and "\<And>a. a \<in> set (tasks s) \<Longrightarrow> a < fresh s \<and> valid_task (task_objs s a) \<and>
          (\<exists>n. task_id (task_objs s a) = PyInt n \<and> 0 < n \<and> n < next_id s)"
  shows "wf s"
  unfolding wf_iff using assms by blast

lemma wf_init: "wf TodoService_init"
  by (simp add: wf_def init_fields)

lemma add_task_cases:
  "(\<exists>e. add_task s t d = (Inl e, s)) \<or>
   (validate_title t = Inr () \<and> validate_description d = Inr () \<and> 0 < next_id s)"
proof (cases "Task_init (PyInt (next_id s)) t d (PyBool False)")
  case (Inl e)
  then show ?thesis
    by (auto simp: add_task_def split: sum.splits error.splits)
next
  case (Inr tk)
  then have "valid_task \<lparr>task_id = PyInt (next_id s), title = t, description = d,
      completed = PyBool False\<rparr>"
    by (auto simp: Task_init_Inr_iff)
  then show ?thesis
    by (simp add: valid_task_def validate_task_id_int split: if_splits)
qed

lemma add_task_fields:
  assumes "validate_title t = Inr ()" and "validate_description d = Inr ()" and "0 < next_id s"
  shows "fst (add_task s t d) = Inr (fresh s)"
    and "tasks (snd (add_task s t d)) = tasks s @ [fresh s]"
    and "task_objs (snd (add_task s t d)) = (task_objs s)(fresh s :=
          \<lparr>task_id = PyInt (next_id s), title = t, description = d,
            completed = PyBool False\<rparr>)"
    and "fresh (snd (add_task s t d)) = Suc (fresh s)"
    and "tasks_ref (snd (add_task s t d)) = tasks_ref s"
    and "next_id (snd (add_task s t d)) = next_id s + 1"
  by (simp_all add: add_task_ok [OF assms] tasks_def)

lemma wf_add_task: "wf s \<Longrightarrow> wf (snd (add_task s t d))"
proof -
  assume wf: "wf s"
  from add_task_cases [of s t d] show ?thesis
  proof
    assume "\<exists>e. add_task s t d = (Inl e, s)"
    then show ?thesis using wf by auto
  next
    assume ok: "validate_title t = Inr () \<and> validate_description d = Inr () \<and> 0 < next_id s"
    define tk where "tk = \<lparr>task_id = PyInt (next_id s), title = t, description = d,
      completed = PyBool False\<rparr>"
    define s' where "s' = snd (add_task s t d)"
    from ok have ts: "tasks s' = tasks s @ [fresh s]"
      and objs: "task_objs s' = (task_objs s)(fresh s := tk)"
      and fr: "fresh s' = Suc (fresh s)" and tr: "tasks_ref s' = tasks_ref s"
      and ni: "next_id s' = next_id s + 1"
      by (simp_all add: s'_def tk_def add_task_fields)
    have old: "a < fresh s" if "a \<in> set (tasks s)" for a
      using wf that by (simp add: wf_iff)
    then have nin: "fresh s \<notin> set (tasks s)" by blast
    have objs_old: "task_objs s' a = task_objs s a" if "a \<in> set (tasks s)" for a
      using that nin by (auto simp: objs)
    have objs_new: "task_objs s' (fresh s) = tk" by (simp add: objs)
    have ids_old: "map (\<lambda>a. task_id (task_objs s' a)) (tasks s) =
        map (\<lambda>a. task_id (task_objs s a)) (tasks s)"
      using objs_old by (simp cong: map_cong)
    have id_fresh: "PyInt (next_id s) \<notin> set (map (\<lambda>a. task_id (task_objs s a)) (tasks s))"
      using wf_idD [OF wf] by force
    have vt: "valid_task tk"
      using ok by (simp add: tk_def valid_task_def validate_task_id_int validate_completed_def)
    have "wf s'"
    proof (rule wfI)
      show "tasks_ref s' < fresh s'" using wf by (simp add: wf_iff fr tr)
      show "0 < next_id s'" using ok by (simp add: ni)
      show "distinct (tasks s')" using wf nin by (simp add: ts wf_iff)
      have "distinct (map (\<lambda>a. task_id (task_objs s a)) (tasks s))"
        using wf by (simp add: wf_iff)
      with id_fresh show "distinct (map (\<lambda>a. task_id (task_objs s' a)) (tasks s'))"
        unfolding ts by (simp add: ids_old objs_new) (simp add: tk_def)
    next
      fix a assume "a \<in> set (tasks s')"
      then consider "a \<in> set (tasks s)" | "a = fresh s" unfolding ts by auto
      then show "a < fresh s' \<and> valid_task (task_objs s' a) \<and>
          (\<exists>n. task_id (task_objs s' a) = PyInt n \<and> 0 < n \<and> n < next_id s')"
      proof cases
        case 1
        from wf 1 have "valid_task (task_objs s a)" by (simp add: wf_iff)
        with wf_idD [OF wf 1] old [OF 1] show ?thesis
          by (auto simp: objs_old [OF 1] fr ni)
      next
        case 2
        then show ?thesis using ok vt by (simp add: objs_new fr ni) (simp add: tk_def)
      qed
    qed
    then show ?thesis by (simp add: s'_def)
  qed
qed


lemma wf_same_tasks:
  assumes "wf s" and "tasks s' = tasks s" and "fresh s \<le> fresh s'"
    and "tasks_ref s' = tasks_ref s" and "next_id s' = next_id s"
    and "\<And>a. a \<in> set (tasks s) \<Longrightarrow>
          task_id (task_objs s' a) = task_id (task_objs s a) \<and> valid_task (task_objs s' a)"
  shows "wf s'"
proof (rule wfI)
  show "tasks_ref s' < fresh s'" using assms(1,3,4) by (simp add: wf_iff)
  show "0 < next_id s'" using assms(1,5) by (simp add: wf_iff)
  show "distinct (tasks s')" using assms(1,2) by (simp add: wf_iff)
  have m: "map (\<lambda>a. task_id (task_objs s' a)) (tasks s) =
      map (\<lambda>a. task_id (task_objs s a)) (tasks s)"
    using assms(6) by (simp cong: map_cong)
  from assms(1) have d: "distinct (map (\<lambda>a. task_id (task_objs s a)) (tasks s))"
    by (simp add: wf_iff)
  show "distinct (map (\<lambda>a. task_id (task_objs s' a)) (tasks s'))"
    unfolding assms(2) m by (rule d)
next
  fix a assume "a \<in> set (tasks s')"
  then have a: "a \<in> set (tasks s)" by (simp add: assms(2))
  from assms(1) a have "a < fresh s" by (simp add: wf_iff)
  with wf_idD [OF assms(1) a] assms(6) [OF a] assms(3,5)
  show "a < fresh s' \<and> valid_task (task_objs s' a) \<and>
      (\<exists>n. task_id (task_objs s' a) = PyInt n \<and> 0 < n \<and> n < next_id s')"
    by auto
qed

lemma wf_valid: "wf s \<Longrightarrow> a \<in> set (tasks s) \<Longrightarrow> valid_task (task_objs s a)"
  by (simp add: wf_iff)

lemma wf_get_all_tasks: "wf s \<Longrightarrow> wf (snd (get_all_tasks s))"
proof (rule wf_same_tasks)
  assume wf: "wf s"
  then show "wf s" .
  from wf show "tasks (snd (get_all_tasks s)) = tasks s"
    by (simp add: get_all_tasks_tasks wf_iff)
  show "fresh s \<le> fresh (snd (get_all_tasks s))" by (simp add: get_all_tasks_fields)
  show "tasks_ref (snd (get_all_tasks s)) = tasks_ref s" by (simp add: get_all_tasks_fields)
  show "next_id (snd (get_all_tasks s)) = next_id s" by (simp add: get_all_tasks_fields)
  fix a assume "a \<in> set (tasks s)"
  with wf show "task_id (task_objs (snd (get_all_tasks s)) a) = task_id (task_objs s a) \<and>
      valid_task (task_objs (snd (get_all_tasks s)) a)"
    by (simp add: get_all_tasks_fields wf_valid)
qed

lemma wf_with_title:
  assumes "wf s" and "v = PyNone \<or> validate_title v = Inr ()"
  shows "wf (with_title s a v)"
proof (rule wf_same_tasks [OF assms(1)])
  show "tasks (with_title s a v) = tasks s" by (simp add: tasks_with)
  show "fresh s \<le> fresh (with_title s a v)" by (simp add: with_title_frame)
  show "tasks_ref (with_title s a v) = tasks_ref s" by (simp add: with_title_frame)
  show "next_id (with_title s a v) = next_id s" by (simp add: with_title_frame)
  fix b assume "b \<in> set (tasks s)"
  then have "valid_task (task_objs s b)" using assms(1) by (simp add: wf_valid)
  then show "task_id (task_objs (with_title s a v) b) = task_id (task_objs s b) \<and>
      valid_task (task_objs (with_title s a v) b)"
    using assms(2) by (auto simp: with_title_def valid_task_def)
qed

lemma wf_with_description:
  assumes "wf s" and "v = PyNone \<or> validate_description v = Inr ()"
  shows "wf (with_description s a v)"
proof (rule wf_same_tasks [OF assms(1)])
  show "tasks (with_description s a v) = tasks s" by (simp add: tasks_with)
  show "fresh s \<le> fresh (with_description s a v)" by (simp add: with_description_def)
  show "tasks_ref (with_description s a v) = tasks_ref s" by (simp add: with_description_def)
  show "next_id (with_description s a v) = next_id s" by (simp add: with_description_def)
  fix b assume "b \<in> set (tasks s)"
  then have "valid_task (task_objs s b)" using assms(1) by (simp add: wf_valid)
  then show "task_id (task_objs (with_description s a v) b) = task_id (task_objs s b) \<and>
      valid_task (task_objs (with_description s a v) b)"
    using assms(2) by (auto simp: with_description_def valid_task_def)
qed

lemma wf_with_completed: "wf s \<Longrightarrow> wf (with_completed s a (PyBool b))"
proof (rule wf_same_tasks)
  assume wf: "wf s"
  then show "wf s" .
  show "tasks (with_completed s a (PyBool b)) = tasks s" by (simp add: tasks_with)
  show "fresh s \<le> fresh (with_completed s a (PyBool b))" by (simp add: with_completed_def)
  show "tasks_ref (with_completed s a (PyBool b)) = tasks_ref s"
    by (simp add: with_completed_def)
  show "next_id (with_completed s a (PyBool b)) = next_id s" by (simp add: with_completed_def)
  fix c assume "c \<in> set (tasks s)"
  then have "valid_task (task_objs s c)" using wf by (simp add: wf_valid)
  then show "task_id (task_objs (with_completed s a (PyBool b)) c) = task_id (task_objs s c) \<and>
      valid_task (task_objs (with_completed s a (PyBool b)) c)"
    by (auto simp: with_completed_def valid_task_def validate_completed_def)
qed

lemma update_task_state:
  "snd (update_task s k t d) = s \<or>
   (\<exists>a. (t = PyNone \<or> validate_title t = Inr ()) \<and>
      (snd (update_task s k t d) = with_title s a t \<or>
       (d = PyNone \<or> validate_description d = Inr ()) \<and>
       snd (update_task s k t d) = with_description (with_title s a t) a d))"
proof (cases "get_task_by_id s k")
  case None
  then show ?thesis by (simp add: update_task_None)
next
  case (Some a)
  show ?thesis
  proof (cases "t = PyNone \<or> validate_title t = Inr ()")
    case False
    then obtain m where "validate_title t = Inl (ValueError m)" "t \<noteq> PyNone"
      using validate_title_not_ok by blast
    then show ?thesis using Some by (simp add: update_task_bad_title)
  next
    case t: True
    show ?thesis
    proof (cases "d = PyNone \<or> validate_description d = Inr ()")
      case True
      with Some t show ?thesis using update_task_ok [of s k a t d] by auto
    next
      case False
      then obtain m where "validate_description d = Inl (ValueError m)" "d \<noteq> PyNone"
        using validate_description_not_ok by blast
      with Some t show ?thesis using update_task_bad_description [of s k a t d m] by auto
    qed
  qed
qed

lemma wf_update_task: "wf s \<Longrightarrow> wf (snd (update_task s k t d))"
  using update_task_state [of s k t d]
  by (auto simp: wf_with_title wf_with_description)

lemma update_task_status_state:
  "snd (update_task_status s k c) = s \<or>
   (\<exists>a b. snd (update_task_status s k c) = with_completed s a (PyBool b))"
proof (cases "get_task_by_id s k")
  case None
  then show ?thesis by (simp add: update_task_status_None)
next
  case (Some a)
  show ?thesis
  proof (cases c)
    case (PyBool b)
    with Some show ?thesis by (auto simp: update_task_status_bool)
  qed (use Some in \<open>simp_all add: update_task_status_not_bool\<close>)
qed

lemma wf_update_task_status: "wf s \<Longrightarrow> wf (snd (update_task_status s k c))"
  using update_task_status_state [of s k c] by (auto simp: wf_with_completed)


lemma get_task_by_id_mem:
  "get_task_by_id s k = Some a \<Longrightarrow> a \<in> set (tasks s) \<and> py_eq (task_id (task_objs s a)) k"
  by (simp add: get_task_by_id_def find_task_mem)

lemma get_task_by_id_None:
  "get_task_by_id s k = None \<longleftrightarrow> (\<forall>a\<in>set (tasks s). \<not> py_eq (task_id (task_objs s a)) k)"
  by (simp add: get_task_by_id_def find_task_None)

lemma delete_task_Some:
  "get_task_by_id s k = Some a \<Longrightarrow>
   delete_task s k =
     (Inr True, s\<lparr>list_objs := (list_objs s)(tasks_ref s := remove1 a (tasks s))\<rparr>)"
  using get_task_by_id_mem [of s k a]
  by (simp add: delete_task_def validate_task_exists_Some list_remove_def)

lemma delete_task_fields:
  assumes "get_task_by_id s k = Some a"
  shows "fst (delete_task s k) = Inr True"
    and "tasks (snd (delete_task s k)) = remove1 a (tasks s)"
    and "task_objs (snd (delete_task s k)) = task_objs s"
    and "fresh (snd (delete_task s k)) = fresh s"
    and "tasks_ref (snd (delete_task s k)) = tasks_ref s"
    and "next_id (snd (delete_task s k)) = next_id s"
  by (simp_all add: delete_task_Some [OF assms] tasks_def)

lemma wf_unique:
  assumes "wf s" and "a \<in> set (tasks s)" and "b \<in> set (tasks s)"
    and "py_eq (task_id (task_objs s a)) k" and "py_eq (task_id (task_objs s b)) k"
  shows "a = b"
proof -
  from wf_idD [OF assms(1,2)] obtain n where n: "task_id (task_objs s a) = PyInt n" by blast
  from wf_idD [OF assms(1,3)] obtain m where m: "task_id (task_objs s b) = PyInt m" by blast
  from assms(4,5) have "n = m" unfolding n m py_eq_PyInt by simp
  then have "task_id (task_objs s a) = task_id (task_objs s b)" by (simp add: n m)
  moreover from assms(1) have "inj_on (\<lambda>a. task_id (task_objs s a)) (set (tasks s))"
    by (simp add: wf_iff distinct_map)
  ultimately show ?thesis using assms(2,3) by (auto dest: inj_onD)
qed

lemma wf_delete_task: "wf s \<Longrightarrow> wf (snd (delete_task s k))"
proof (cases "get_task_by_id s k")
  case None
  assume "wf s"
  with None show ?thesis by (simp add: delete_task_None)
next
  case (Some a)
  assume wf: "wf s"
  note f = delete_task_fields [OF Some]
  show ?thesis
  proof (rule wfI)
    show "tasks_ref (snd (delete_task s k)) < fresh (snd (delete_task s k))"
      using wf by (simp add: f wf_iff)
    show "0 < next_id (snd (delete_task s k))" using wf by (simp add: f wf_iff)
    show "distinct (tasks (snd (delete_task s k)))" using wf by (simp add: f wf_iff)
    from wf have "distinct (tasks s)" "inj_on (\<lambda>a. task_id (task_objs s a)) (set (tasks s))"
      by (simp_all add: wf_iff distinct_map)
    then have "distinct (remove1 a (tasks s)) \<and>
        inj_on (\<lambda>a. task_id (task_objs s a)) (set (remove1 a (tasks s)))"
      by (auto intro: inj_on_subset set_remove1_subset)
    then show "distinct (map (\<lambda>a. task_id (task_objs (snd (delete_task s k)) a))
        (tasks (snd (delete_task s k))))"
      by (simp add: f distinct_map)
  next
    fix b assume "b \<in> set (tasks (snd (delete_task s k)))"
    then have b: "b \<in> set (tasks s)" using set_remove1_subset [of a "tasks s"] by (auto simp: f)
    from wf b have "b < fresh s" "valid_task (task_objs s b)" by (simp_all add: wf_iff)
    with wf_idD [OF wf b]
    show "b < fresh (snd (delete_task s k)) \<and> valid_task (task_objs (snd (delete_task s k)) b) \<and>
        (\<exists>n. task_id (task_objs (snd (delete_task s k)) b) = PyInt n \<and> 0 < n \<and>
           n < next_id (snd (delete_task s k)))"
      by (simp add: f)
  qed
qed

lemma wf_step: "wf s \<Longrightarrow> wf (snd (step s x))"
  by (cases x)
    (simp_all add: wf_add_task wf_get_all_tasks wf_update_task wf_update_task_status
      wf_delete_task)

lemma wf_run: "wf s \<Longrightarrow> wf (run s xs)"
  by (induction xs arbitrary: s) (simp_all add: wf_step)

lemma delete_task_view:
  assumes "wf s" and "get_task_by_id s k = Some a"
  shows "view (snd (delete_task s k)) = filter (\<lambda>tk. \<not> py_eq (task_id tk) k) (view s)"
proof -
  note mem = get_task_by_id_mem [OF assms(2)]
  have "filter (\<lambda>b. \<not> py_eq (task_id (task_objs s b)) k) (tasks s) =
      filter (\<lambda>b. a \<noteq> b) (tasks s)"
  proof (rule filter_cong [OF refl])
    fix b assume "b \<in> set (tasks s)"
    with wf_unique [OF assms(1) _ _ _ _, of a b k] mem
    show "(\<not> py_eq (task_id (task_objs s b)) k) = (a \<noteq> b)" by auto
  qed
  also have "\<dots> = remove1 a (tasks s)"
    using assms(1) by (simp add: wf_iff distinct_remove1_removeAll removeAll_filter_not_eq)
  finally show ?thesis
    by (simp add: view_def delete_task_fields [OF assms(2)] filter_map comp_def)
qed

section \<open>Deleting\<close>

lemma wf_ex: "wf ex1" "wf ex2" "wf ex3" "wf ex4"
  by (simp_all add: ex1_def ex2_def ex3_def ex4_def wf_init wf_add_task wf_delete_task)

lemma ex2_fields:
  "tasks ex2 = [1, 2]" "fresh ex2 = 3" "tasks_ref ex2 = 0" "next_id ex2 = 3"
  "task_objs ex2 (Suc 0) = ex_task"
  "task_objs ex2 2 = \<lparr>task_id = PyInt 2, title = PyStr (str ''Clean''), description = PyStr [],
     completed = PyBool False\<rparr>"
proof -
  have "0 < next_id ex1" by (simp add: ex1_fields)
  note f = add_task_fields [OF title_examples(2) description_empty this]
  show "tasks ex2 = [1, 2]" "fresh ex2 = 3" "tasks_ref ex2 = 0" "next_id ex2 = 3"
    "task_objs ex2 (Suc 0) = ex_task"
    "task_objs ex2 2 = \<lparr>task_id = PyInt 2, title = PyStr (str ''Clean''),
       description = PyStr [], completed = PyBool False\<rparr>"
    by (simp_all add: ex2_def f ex1_fields)
qed

lemma ex2_get: "get_task_by_id ex2 (PyInt 1) = Some 1" "get_task_by_id ex2 (PyInt 2) = Some 2"
  by (simp_all add: get_task_by_id_def ex2_fields ex_task_def)

text \<open>
  Claim C7. In a state of the registry that holds a task with the given id,
  \<^verbatim>\<open>delete_task\<close> returns \<^verbatim>\<open>True\<close> and removes that one task from the collection:
  no task object changes, so every other task keeps its id and its fields; the tasks
  shown afterwards are those shown before without the one of that id, in the same order
  and one fewer; and the id is no longer found.
\<close>

theorem delete_task_removes_one:
  assumes "wf s" and "get_task_by_id s k = Some a"
  shows "fst (delete_task s k) = Inr True \<and>
     task_objs (snd (delete_task s k)) = task_objs s \<and>
     next_id (snd (delete_task s k)) = next_id s \<and>
     tasks (snd (delete_task s k)) = remove1 a (tasks s) \<and>
     view (snd (delete_task s k)) = filter (\<lambda>tk. \<not> py_eq (task_id tk) k) (view s) \<and>
     Suc (length (view (snd (delete_task s k)))) = length (view s) \<and>
     get_task_by_id (snd (delete_task s k)) k = None"
proof -
  note f = delete_task_fields [OF assms(2)]
  note mem = get_task_by_id_mem [OF assms(2)]
  have len: "Suc (length (view (snd (delete_task s k)))) = length (view s)"
  proof -
    from mem have "0 < length (tasks s)" by (cases "tasks s") auto
    with mem show ?thesis by (simp add: view_def f length_remove1)
  qed
  have gone: "get_task_by_id (snd (delete_task s k)) k = None"
    unfolding get_task_by_id_None f
  proof
    fix b assume "b \<in> set (remove1 a (tasks s))"
    with assms(1) have b: "b \<in> set (tasks s)" "b \<noteq> a" by (simp_all add: wf_iff)
    with wf_unique [OF assms(1) _ _ _ _, of a b k] mem
    show "\<not> py_eq (task_id (task_objs s b)) k" by auto
  qed
  from f len gone delete_task_view [OF assms] show ?thesis by simp
qed

theorem delete_task_removes_one_witness:
  "wf ex2 \<and> get_task_by_id ex2 (PyInt 1) = Some 1 \<and>
   fst (delete_task ex2 (PyInt 1)) = Inr True \<and>
   tasks ex3 = [2] \<and>
   view ex2 = [ex_task, \<lparr>task_id = PyInt 2, title = PyStr (str ''Clean''),
     description = PyStr [], completed = PyBool False\<rparr>] \<and>
   view ex3 = [\<lparr>task_id = PyInt 2, title = PyStr (str ''Clean''), description = PyStr [],
     completed = PyBool False\<rparr>] \<and>
   get_task_by_id ex3 (PyInt 1) = None"
  using delete_task_removes_one [OF wf_ex(2) ex2_get(1)]
  by (simp add: ex3_def [symmetric] wf_ex ex2_get view_def ex2_fields ex_task_def)

end
